theory Spec2Isabelle
  imports Main
begin

section \<open>Exceptions, tracebacks and faults\<close>

text \<open>
  The classes of exception that the handlers of \<open>TestCase.run\<close> tell apart: the
  cancellation signal, the assertion-failure signal, and everything else (caught by the
  bare \<open>except:\<close>), named by its class.
\<close>

datatype exc_class = KeyboardInterrupt | AssertionFailure | OtherClass string

text \<open>
  One level of a raw Python traceback. \<open>in_framework\<close> is the value of
  \<open>TestCase._is_relevant_tb_level\<close> on that level: true when the globals of the frame
  hold \<open>TestCase\<close> or one of its base classes.
\<close>

record tb_level =
  tb_filename :: string
  tb_lineno :: nat
  tb_name :: string
  tb_line :: "string option"
  in_framework :: bool

text \<open>Class \<open>Traceback\<close>: one extracted stack entry.\<close>

record traceback =
  filename :: string
  lineno :: nat
  name :: string
  line :: "string option"

text \<open>What \<open>sys.exc_info()\<close> returns for a raised exception: type, detail, traceback.\<close>

record raised =
  exc_type :: exc_class
  detail :: string
  exc_tb :: "tb_level list"

text \<open>
  A phase of user code (\<open>setup\<close>, the test method, \<open>teardown\<close>) as the engine sees it:
  the number of satisfied assertions it reports through \<open>_pass_assertion\<close>, the time it
  takes in clock ticks, and the exception it raises, if any.
\<close>

record phase =
  passes :: nat
  ticks :: nat
  outcome :: "raised option"

text \<open>An instance of a \<open>TestCase\<close> subclass, bound to one test method.\<close>

record test_case =
  class_name :: string
  method_name :: string
  setup_hook :: phase
  test_method :: phase
  teardown_hook :: phase

text \<open>
  Modelled from the spec: the module \<open>pikzie.faults\<close> is not among the sources. The two
  fault kinds take the arguments of their construction sites in \<open>TestCase._add_failure\<close>
  and \<open>TestCase._add_error\<close>: the test, (for an error) the exception type, the detail
  and the extracted tracebacks.
\<close>

datatype fault =
    Failure test_case string "traceback list"
  | Error test_case exc_class string "traceback list"

fun is_Failure :: "fault \<Rightarrow> bool" where
  "is_Failure (Failure t d tbs) = True"
| "is_Failure (Error t x d tbs) = False"

fun is_Error :: "fault \<Rightarrow> bool" where
  "is_Error (Failure t d tbs) = False"
| "is_Error (Error t x d tbs) = True"

section \<open>TestResult\<close>

text \<open>
  A listener object: its identity and the attribute names \<open>hasattr\<close> finds on it.
\<close>

record listener =
  lid :: nat
  attrs :: "string list"

definition hasattr :: "listener \<Rightarrow> string \<Rightarrow> bool" where
  "hasattr l a = (a \<in> set (attrs l))"

text \<open>
  The fields of \<open>TestResult\<close>. \<open>start_at\<close> and \<open>stop_at\<close> are the attributes
  \<open>_start_at\<close> and \<open>_stop_at\<close>, which \<open>__init__\<close> does not set. Times are clock
  ticks.
\<close>

record test_result =
  n_assertions :: nat
  n_tests :: nat
  faults :: "fault list"
  listners :: "listener list"
  interrupted :: bool
  elapsed :: int
  start_at :: "int option"
  stop_at :: "int option"

datatype arg = ATest test_case | AFault fault

text \<open>
  What is observed of a run, in order: a call of user code on a test at one step of the
  lifecycle (\<open>Invoke\<close>: \<open>self.setup()\<close>, the test method, \<open>self.teardown()\<close>), a
  call of a \<open>TestResult\<close> method (\<open>Call\<close>), and a call of a listener's hook with
  the aggregator as it is at that moment and the event's arguments (\<open>Hook\<close>).
\<close>

datatype step = Setup | Body | Teardown

datatype event =
    Invoke test_case step
  | Call string "arg list"
  | Hook nat string test_result "arg list"

text \<open>
  The state threaded through a run: the shared \<open>TestResult\<close>, the log of events and
  the value \<open>time.time()\<close> returns. Hooks of listeners are taken to return normally and
  to leave the aggregator as it is.
\<close>

record world =
  res :: test_result
  log :: "event list"
  clock :: int

datatype error = TypeError | AttributeError

definition TestResult_init :: test_result where
  "TestResult_init = \<lparr> n_assertions = 0, n_tests = 0, faults = [], listners = [],
     interrupted = False, elapsed = 0, start_at = None, stop_at = None \<rparr>"

definition add_listner :: "listener \<Rightarrow> test_result \<Rightarrow> test_result" where
  "add_listner l r = r\<lparr>listners := listners r @ [l]\<rparr>"

definition n_faults :: "test_result \<Rightarrow> nat" where
  "n_faults r = length (faults r)"

definition n_failures :: "test_result \<Rightarrow> nat" where
  "n_failures r = length (filter is_Failure (faults r))"

definition n_errors :: "test_result \<Rightarrow> nat" where
  "n_errors r = length (filter is_Error (faults r))"

text \<open>
  \<open>_notify\<close>: the loop over the listeners in registration order; a listener without
  the attribute \<open>on_<name>\<close> is passed over.
\<close>

primrec notify_loop ::
  "listener list \<Rightarrow> string \<Rightarrow> arg list \<Rightarrow> test_result \<Rightarrow> event list \<Rightarrow> event list" where
  "notify_loop [] nm args r lg = lg"
| "notify_loop (l # ls) nm args r lg =
     notify_loop ls nm args r
       (if hasattr l (''on_'' @ nm) then lg @ [Hook (lid l) (''on_'' @ nm) r args] else lg)"

definition notify :: "string \<Rightarrow> arg list \<Rightarrow> world \<Rightarrow> world" where
  "notify nm args w = w\<lparr>log := notify_loop (listners (res w)) nm args (res w) (log w)\<rparr>"

definition called :: "string \<Rightarrow> arg list \<Rightarrow> world \<Rightarrow> world" where
  "called m args w = w\<lparr>log := log w @ [Call m args]\<rparr>"

definition pass_assertion :: "test_case \<Rightarrow> world \<Rightarrow> world" where
  "pass_assertion t w =
     notify ''pass_assertion'' [ATest t]
       ((called ''pass_assertion'' [ATest t] w)
          \<lparr>res := (res w)\<lparr>n_assertions := n_assertions (res w) + 1\<rparr>\<rparr>)"

definition start_test :: "test_case \<Rightarrow> world \<Rightarrow> world" where
  "start_test t w =
     notify ''start_test'' [ATest t]
       ((called ''start_test'' [ATest t] w)
          \<lparr>res := (res w)\<lparr>start_at := Some (clock w), n_tests := n_tests (res w) + 1\<rparr>\<rparr>)"

text \<open>
  \<open>stop_test\<close> reads \<open>_start_at\<close> after it has set \<open>_stop_at\<close>; the read raises
  when no test has been started. There is no call of \<open>_notify\<close> in it.
\<close>

definition stop_test :: "test_case \<Rightarrow> world \<Rightarrow> error option \<times> world" where
  "stop_test t w =
     (let w1 = (called ''stop_test'' [ATest t] w)\<lparr>res := (res w)\<lparr>stop_at := Some (clock w)\<rparr>\<rparr>
      in case start_at (res w1) of
           None \<Rightarrow> (Some AttributeError, w1)
         | Some s \<Rightarrow>
             (None, w1\<lparr>res := (res w1)\<lparr>elapsed := elapsed (res w1) + (clock w - s)\<rparr>\<rparr>))"

definition add_error :: "test_case \<Rightarrow> fault \<Rightarrow> world \<Rightarrow> world" where
  "add_error t f w =
     notify ''error'' [AFault f]
       ((called ''add_error'' [ATest t, AFault f] w)
          \<lparr>res := (res w)\<lparr>faults := faults (res w) @ [f]\<rparr>\<rparr>)"

definition add_failure :: "test_case \<Rightarrow> fault \<Rightarrow> world \<Rightarrow> world" where
  "add_failure t f w =
     notify ''failure'' [AFault f]
       ((called ''add_failure'' [ATest t, AFault f] w)
          \<lparr>res := (res w)\<lparr>faults := faults (res w) @ [f]\<rparr>\<rparr>)"

definition add_success :: "test_case \<Rightarrow> world \<Rightarrow> world" where
  "add_success t w = notify ''success'' [ATest t] (called ''add_success'' [ATest t] w)"

definition interrupt :: "world \<Rightarrow> world" where
  "interrupt w = (called ''interrupt'' [] w)\<lparr>res := (res w)\<lparr>interrupted := True\<rparr>\<rparr>"

definition need_interrupt :: "test_result \<Rightarrow> bool" where
  "need_interrupt r = interrupted r"

definition succeeded :: "test_result \<Rightarrow> bool" where
  "succeeded r = (length (faults r) = 0)"

section \<open>TestCase\<close>

text \<open>
  \<open>_prepare_traceback\<close>: the first loop drops the leading levels of the framework; with
  \<open>compute_length\<close> the length is the number of levels up to the next level of the
  framework (\<open>_count_relevant_tb_levels\<close>), and \<open>traceback.extract_tb\<close> keeps that
  many entries, or all of them when the length is \<open>None\<close>.
\<close>

definition is_relevant_tb_level :: "tb_level \<Rightarrow> bool" where
  "is_relevant_tb_level tb = in_framework tb"

fun count_relevant_tb_levels :: "tb_level list \<Rightarrow> nat" where
  "count_relevant_tb_levels [] = 0"
| "count_relevant_tb_levels (tb # tbs) =
     (if is_relevant_tb_level tb then 0 else 1 + count_relevant_tb_levels tbs)"

definition extract_tb :: "tb_level list \<Rightarrow> nat option \<Rightarrow> traceback list" where
  "extract_tb tbs limit =
     map (\<lambda>tb. \<lparr> filename = tb_filename tb, lineno = tb_lineno tb, name = tb_name tb,
                 line = tb_line tb \<rparr>)
       (case limit of None \<Rightarrow> tbs | Some n \<Rightarrow> take n tbs)"

definition prepare_traceback :: "tb_level list \<Rightarrow> bool \<Rightarrow> traceback list" where
  "prepare_traceback tb compute_length =
     (let tb1 = dropWhile is_relevant_tb_level tb;
          len = (if compute_length then Some (count_relevant_tb_levels tb1) else None)
      in extract_tb tb1 len)"

text \<open>
  \<open>_add_failure\<close> and \<open>_add_error\<close> of \<open>TestCase\<close>: both report through
  \<open>result.add_error\<close>.
\<close>

definition tc_add_failure :: "test_case \<Rightarrow> raised \<Rightarrow> world \<Rightarrow> world" where
  "tc_add_failure c e w =
     add_error c (Failure c (detail e) (prepare_traceback (exc_tb e) True)) w"

definition tc_add_error :: "test_case \<Rightarrow> raised \<Rightarrow> world \<Rightarrow> world" where
  "tc_add_error c e w =
     add_error c (Error c (exc_type e) (detail e) (prepare_traceback (exc_tb e) False)) w"

text \<open>
  Running one phase of user code: the call itself, one \<open>_pass_assertion\<close> (that is
  \<open>result.pass_assertion\<close> on the bound result) for every satisfied assertion, and the
  time it takes. The exception the phase raises is handled by the caller.
\<close>

definition exec_phase :: "test_case \<Rightarrow> step \<Rightarrow> phase \<Rightarrow> world \<Rightarrow> world" where
  "exec_phase c m p w =
     (let w1 = w\<lparr>log := log w @ [Invoke c m]\<rparr>;
          w2 = ((pass_assertion c) ^^ (passes p)) w1
      in w2\<lparr>clock := clock w2 + int (ticks p)\<rparr>)"

text \<open>How control leaves a block: off its end, by \<open>return\<close>, or by an exception.\<close>

datatype flow = Fallthrough | Returned | Raised error

text \<open>
  The statement \<open>result.interrupted()\<close>: the attribute \<open>interrupted\<close> of a
  \<open>TestResult\<close> is the boolean flag, not a method, and calling a boolean raises
  \<open>TypeError\<close>. The flag is not written.
\<close>

definition call_interrupted :: "world \<Rightarrow> error option \<times> world" where
  "call_interrupted w = (Some TypeError, w)"

text \<open>
  The \<open>try\<close> around \<open>self.setup()\<close>. An exception raised inside a handler leaves the
  \<open>try\<close> statement: the \<open>return\<close> after \<open>result.interrupted()\<close> is reached only
  when that call returns.
\<close>

definition run_setup :: "test_case \<Rightarrow> world \<Rightarrow> flow \<times> world" where
  "run_setup c w =
     (let w1 = exec_phase c Setup (setup_hook c) w
      in case outcome (setup_hook c) of
           None \<Rightarrow> (Fallthrough, w1)
         | Some e \<Rightarrow>
             if exc_type e = KeyboardInterrupt then
               (case call_interrupted w1 of
                  (Some x, w2) \<Rightarrow> (Raised x, w2)
                | (None, w2) \<Rightarrow> (Returned, w2))
             else (Returned, tc_add_error c e w1))"

text \<open>The \<open>try\<close> around the test method; the boolean is the variable \<open>success\<close>.\<close>

definition run_body :: "test_case \<Rightarrow> world \<Rightarrow> flow \<times> bool \<times> world" where
  "run_body c w =
     (let w1 = exec_phase c Body (test_method c) w
      in case outcome (test_method c) of
           None \<Rightarrow> (Fallthrough, True, w1)
         | Some e \<Rightarrow>
             if exc_type e = AssertionFailure then (Fallthrough, False, tc_add_failure c e w1)
             else if exc_type e = KeyboardInterrupt then
               (case call_interrupted w1 of
                  (Some x, w2) \<Rightarrow> (Raised x, False, w2)
                | (None, w2) \<Rightarrow> (Returned, False, w2))
             else (Fallthrough, False, tc_add_error c e w1))"

text \<open>
  The inner \<open>finally\<close>: it runs however the guarded block was left and then lets the
  pending \<open>return\<close> or exception go on, unless it raises itself.
\<close>

definition run_teardown :: "test_case \<Rightarrow> flow \<times> bool \<times> world \<Rightarrow> flow \<times> bool \<times> world" where
  "run_teardown c st =
     (case st of (fl, success, w) \<Rightarrow>
        (let w1 = exec_phase c Teardown (teardown_hook c) w
         in case outcome (teardown_hook c) of
              None \<Rightarrow> (fl, success, w1)
            | Some e \<Rightarrow>
                if exc_type e = KeyboardInterrupt then
                  (case call_interrupted w1 of
                     (Some x, w2) \<Rightarrow> (Raised x, success, w2)
                   | (None, w2) \<Rightarrow> (fl, success, w2))
                else (fl, False, tc_add_error c e w1)))"

definition run_guarded :: "test_case \<Rightarrow> world \<Rightarrow> flow \<times> bool \<times> world" where
  "run_guarded c w =
     run_teardown c
       (case run_setup c w of
          (Fallthrough, w1) \<Rightarrow> run_body c w1
        | (Returned, w1) \<Rightarrow> (Returned, False, w1)
        | (Raised x, w1) \<Rightarrow> (Raised x, False, w1))"

text \<open>
  \<open>TestCase.run\<close>. The result is the exception that leaves the call, if any, and the
  state after it. The outer \<open>finally\<close> always calls \<open>result.stop_test\<close>. The
  result is bound to the test (\<open>self.__result\<close>) for the time of the call only; it is
  the one the phases report their satisfied assertions to.
\<close>

definition run :: "test_case \<Rightarrow> world \<Rightarrow> error option \<times> world" where
  "run c w =
     (case run_guarded c (start_test c w) of (fl, success, w2) \<Rightarrow>
        (let w3 = (if fl = Fallthrough \<and> success then add_success c w2 else w2)
         in case stop_test c w3 of
              (Some x, w4) \<Rightarrow> (Some x, w4)
            | (None, w4) \<Rightarrow> (case fl of Raised x \<Rightarrow> (Some x, w4) | _ \<Rightarrow> (None, w4))))"

section \<open>TestSuite\<close>

datatype test = Case test_case | Suite "test list"

text \<open>
  \<open>TestSuite.run\<close> (\<open>suite_run\<close>) over the children in order: the flag is read after
  each child has run. An exception leaving a child leaves the loop.
\<close>

fun test_run :: "test \<Rightarrow> world \<Rightarrow> error option \<times> world"
  and suite_run :: "test list \<Rightarrow> world \<Rightarrow> error option \<times> world" where
  "test_run (Case c) w = run c w"
| "test_run (Suite ts) w = suite_run ts w"
| "suite_run [] w = (None, w)"
| "suite_run (t # ts) w =
     (case test_run t w of
        (Some x, w1) \<Rightarrow> (Some x, w1)
      | (None, w1) \<Rightarrow> if need_interrupt (res w1) then (None, w1) else suite_run ts w1)"

fun test_len :: "test \<Rightarrow> nat" where
  "test_len (Case c) = 1"
| "test_len (Suite ts) = sum_list (map test_len ts)"

section \<open>TestLoader\<close>

















section \<open>Observations on a run\<close>

fun is_Invoke :: "event \<Rightarrow> bool" where
  "is_Invoke (Invoke c s) = True"
| "is_Invoke (Call m a) = False"
| "is_Invoke (Hook l n r a) = False"

fun is_call_of :: "string \<Rightarrow> event \<Rightarrow> bool" where
  "is_call_of m (Invoke c s) = False"
| "is_call_of m (Call m' a) = (m' = m)"
| "is_call_of m (Hook l n r a) = False"

fun is_hook_of :: "string \<Rightarrow> event \<Rightarrow> bool" where
  "is_hook_of h (Invoke c s) = False"
| "is_hook_of h (Call m a) = False"
| "is_hook_of h (Hook l n r a) = (n = h)"

fun is_Hook :: "event \<Rightarrow> bool" where
  "is_Hook (Invoke c s) = False"
| "is_Hook (Call m a) = False"
| "is_Hook (Hook l n r a) = True"

text \<open>The calls of user code, the calls of one method of the result, the calls of one
  hook, and all calls of hooks, each in the order of the log.\<close>

definition invocations :: "world \<Rightarrow> event list" where
  "invocations w = filter is_Invoke (log w)"

definition calls_of :: "string \<Rightarrow> world \<Rightarrow> event list" where
  "calls_of m w = filter (is_call_of m) (log w)"

definition hooks_of :: "string \<Rightarrow> world \<Rightarrow> event list" where
  "hooks_of h w = filter (is_hook_of h) (log w)"

definition notifications :: "world \<Rightarrow> event list" where
  "notifications w = filter is_Hook (log w)"

text \<open>How often \<open>teardown\<close> has been called on a test.\<close>

definition teardown_calls :: "test_case \<Rightarrow> world \<Rightarrow> nat" where
  "teardown_calls c w = length (filter (\<lambda>e. e = Invoke c Teardown) (log w))"

text \<open>
  What one dispatch of the event \<open>nm\<close> adds to the log: one call of \<open>on_<nm>\<close> for
  every listener that has it, in registration order, with the aggregator \<open>r\<close> and the
  arguments.
\<close>

definition hooks_for :: "string \<Rightarrow> arg list \<Rightarrow> test_result \<Rightarrow> event list" where
  "hooks_for nm args r =
     map (\<lambda>l. Hook (lid l) (''on_'' @ nm) r args)
       (filter (\<lambda>l. hasattr l (''on_'' @ nm)) (listners r))"

text \<open>The fault records that \<open>_add_error\<close> and \<open>_add_failure\<close> build.\<close>

definition error_of :: "test_case \<Rightarrow> raised \<Rightarrow> fault" where
  "error_of c e = Error c (exc_type e) (detail e) (prepare_traceback (exc_tb e) False)"

definition failure_of :: "test_case \<Rightarrow> raised \<Rightarrow> fault" where
  "failure_of c e = Failure c (detail e) (prepare_traceback (exc_tb e) True)"

text \<open>
  The fault records a run of a test is to leave, phase by phase: an Error for a fault
  of \<open>setup\<close> or \<open>teardown\<close>, a Failure for an assertion failure of the test method and
  an Error for any other fault of it; nothing for the cancellation signal, and nothing
  for a test method that is not run because \<open>setup\<close> raised.
\<close>

definition setup_faults :: "test_case \<Rightarrow> fault list" where
  "setup_faults c =
     (case outcome (setup_hook c) of
        None \<Rightarrow> []
      | Some e \<Rightarrow> if exc_type e = KeyboardInterrupt then [] else [error_of c e])"

definition body_faults :: "test_case \<Rightarrow> fault list" where
  "body_faults c =
     (case outcome (setup_hook c) of
        Some e \<Rightarrow> []
      | None \<Rightarrow>
          (case outcome (test_method c) of
             None \<Rightarrow> []
           | Some e \<Rightarrow>
               if exc_type e = AssertionFailure then [failure_of c e]
               else if exc_type e = KeyboardInterrupt then []
               else [error_of c e]))"

definition teardown_faults :: "test_case \<Rightarrow> fault list" where
  "teardown_faults c =
     (case outcome (teardown_hook c) of
        None \<Rightarrow> []
      | Some e \<Rightarrow> if exc_type e = KeyboardInterrupt then [] else [error_of c e])"

definition recorded_faults :: "test_case \<Rightarrow> fault list" where
  "recorded_faults c = setup_faults c @ body_faults c @ teardown_faults c"

definition raises_cancel :: "phase \<Rightarrow> bool" where
  "raises_cancel p =
     (case outcome p of None \<Rightarrow> False | Some e \<Rightarrow> exc_type e = KeyboardInterrupt)"

text \<open>Some phase that is run raises the cancellation signal.\<close>

definition cancelled :: "test_case \<Rightarrow> bool" where
  "cancelled c =
     (raises_cancel (setup_hook c)
      \<or> (outcome (setup_hook c) = None \<and> raises_cancel (test_method c))
      \<or> raises_cancel (teardown_hook c))"

text \<open>All three phases return normally.\<close>

definition passed :: "test_case \<Rightarrow> bool" where
  "passed c =
     (outcome (setup_hook c) = None \<and> outcome (test_method c) = None
      \<and> outcome (teardown_hook c) = None)"





section \<open>Example tests and results\<close>

definition returns :: phase where
  "returns = \<lparr> passes = 0, ticks = 1, outcome = None \<rparr>"

definition raises :: "exc_class \<Rightarrow> phase" where
  "raises k = \<lparr> passes = 0, ticks = 1,
     outcome = Some \<lparr> exc_type = k, detail = ''boom'', exc_tb = [] \<rparr> \<rparr>"

definition test_passing :: test_case where
  "test_passing = \<lparr> class_name = ''TestA'', method_name = ''test_pass'',
     setup_hook = returns, test_method = returns, teardown_hook = returns \<rparr>"

definition test_other :: test_case where
  "test_other = \<lparr> class_name = ''TestA'', method_name = ''test_other'',
     setup_hook = returns, test_method = returns, teardown_hook = returns \<rparr>"

definition test_cancelled :: test_case where
  "test_cancelled = \<lparr> class_name = ''TestA'', method_name = ''test_cancel'',
     setup_hook = returns, test_method = raises KeyboardInterrupt, teardown_hook = returns \<rparr>"

definition test_fail_then_teardown_error :: test_case where
  "test_fail_then_teardown_error = \<lparr> class_name = ''TestA'', method_name = ''test_fail'',
     setup_hook = returns, test_method = raises AssertionFailure,
     teardown_hook = raises (OtherClass ''IOError'') \<rparr>"

definition test_teardown_error :: test_case where
  "test_teardown_error = \<lparr> class_name = ''TestA'', method_name = ''test_ok'',
     setup_hook = returns, test_method = returns,
     teardown_hook = raises (OtherClass ''IOError'') \<rparr>"

definition test_error :: test_case where
  "test_error = \<lparr> class_name = ''TestA'', method_name = ''test_error'',
     setup_hook = returns, test_method = raises (OtherClass ''ZeroDivisionError''),
     teardown_hook = returns \<rparr>"

text \<open>A fresh result without listeners, and one with a listener that has every hook.\<close>

definition fresh :: world where
  "fresh = \<lparr> res = TestResult_init, log = [], clock = 0 \<rparr>"

definition full_listener :: listener where
  "full_listener = \<lparr> lid = 0, attrs = [''on_start_test'', ''on_stop_test'',
     ''on_pass_assertion'', ''on_success'', ''on_failure'', ''on_error''] \<rparr>"

definition listened :: world where
  "listened = \<lparr> res = add_listner full_listener TestResult_init, log = [], clock = 0 \<rparr>"

definition error_listener :: listener where
  "error_listener = \<lparr> lid = 1, attrs = [''on_error''] \<rparr>"

definition error_listened :: world where
  "error_listened = \<lparr> res = add_listner error_listener TestResult_init, log = [], clock = 0 \<rparr>"

definition some_fault :: fault where
  "some_fault = Error test_error (OtherClass ''ZeroDivisionError'') ''boom'' []"

section \<open>The effect of each operation on the observations\<close>

lemma notify_loop_append:
  "notify_loop ls nm args r lg =
     lg @ map (\<lambda>l. Hook (lid l) (''on_'' @ nm) r args) (filter (\<lambda>l. hasattr l (''on_'' @ nm)) ls)"
  by (induction ls arbitrary: lg) simp_all

lemma notify_log: "log (notify nm args w) = log w @ hooks_for nm args (res w)"
  by (simp add: notify_def notify_loop_append hooks_for_def)

lemma notify_res [simp]: "res (notify nm args w) = res w"
  by (simp add: notify_def)

lemma notify_clock [simp]: "clock (notify nm args w) = clock w"
  by (simp add: notify_def)

lemma filter_hooks_for:
  "filter is_Invoke (hooks_for nm args r) = []"
  "filter (is_call_of m) (hooks_for nm args r) = []"
  "filter (is_hook_of h) (hooks_for nm args r) =
     (if h = ''on_'' @ nm then hooks_for nm args r else [])"
  "filter is_Hook (hooks_for nm args r) = hooks_for nm args r"
  by (simp_all add: hooks_for_def filter_map o_def)

lemma notify_invocations [simp]: "invocations (notify nm args w) = invocations w"
  by (simp add: invocations_def notify_log filter_hooks_for)

lemma notify_calls_of [simp]: "calls_of m (notify nm args w) = calls_of m w"
  by (simp add: calls_of_def notify_log filter_hooks_for)

lemma notify_hooks_of:
  "hooks_of h (notify nm args w) =
     hooks_of h w @ (if h = ''on_'' @ nm then hooks_for nm args (res w) else [])"
  by (simp add: hooks_of_def notify_log filter_hooks_for)

lemma called_res [simp]: "res (called m args w) = res w"
  and called_clock [simp]: "clock (called m args w) = clock w"
  and called_invocations [simp]: "invocations (called m args w) = invocations w"
  and called_hooks_of [simp]: "hooks_of h (called m args w) = hooks_of h w"
  and called_calls_of:
    "calls_of m' (called m args w) = calls_of m' w @ (if m = m' then [Call m args] else [])"
  by (simp_all add: called_def invocations_def hooks_of_def calls_of_def)

lemma update_observations [simp]:
  "invocations (w\<lparr>res := r\<rparr>) = invocations w"
  "calls_of m (w\<lparr>res := r\<rparr>) = calls_of m w"
  "hooks_of h (w\<lparr>res := r\<rparr>) = hooks_of h w"
  "invocations (w\<lparr>clock := k\<rparr>) = invocations w"
  "calls_of m (w\<lparr>clock := k\<rparr>) = calls_of m w"
  "hooks_of h (w\<lparr>clock := k\<rparr>) = hooks_of h w"
  by (simp_all add: invocations_def hooks_of_def calls_of_def)

lemma pass_assertion_res:
  "res (pass_assertion t w) = (res w)\<lparr>n_assertions := n_assertions (res w) + 1\<rparr>"
  by (simp add: pass_assertion_def)

lemma pass_assertion_frame [simp]:
  "clock (pass_assertion t w) = clock w"
  "invocations (pass_assertion t w) = invocations w"
  "m \<noteq> ''pass_assertion'' \<Longrightarrow> calls_of m (pass_assertion t w) = calls_of m w"
  "h \<noteq> ''on_pass_assertion'' \<Longrightarrow> hooks_of h (pass_assertion t w) = hooks_of h w"
  by (simp_all add: pass_assertion_def called_calls_of notify_hooks_of)

lemma pass_assertions_res:
  "res ((pass_assertion t ^^ n) w) = (res w)\<lparr>n_assertions := n_assertions (res w) + n\<rparr>"
  by (induction n) (simp_all add: pass_assertion_res)

lemma pass_assertions_frame [simp]:
  "clock ((pass_assertion t ^^ n) w) = clock w"
  "invocations ((pass_assertion t ^^ n) w) = invocations w"
  "m \<noteq> ''pass_assertion'' \<Longrightarrow> calls_of m ((pass_assertion t ^^ n) w) = calls_of m w"
  "h \<noteq> ''on_pass_assertion'' \<Longrightarrow> hooks_of h ((pass_assertion t ^^ n) w) = hooks_of h w"
  by (induction n) simp_all

lemma exec_phase_res:
  "res (exec_phase c s p w) = (res w)\<lparr>n_assertions := n_assertions (res w) + passes p\<rparr>"
  by (simp add: exec_phase_def Let_def pass_assertions_res)

lemma exec_phase_frame [simp]:
  "clock (exec_phase c s p w) = clock w + int (ticks p)"
  "invocations (exec_phase c s p w) = invocations w @ [Invoke c s]"
  "m \<noteq> ''pass_assertion'' \<Longrightarrow> calls_of m (exec_phase c s p w) = calls_of m w"
  "h \<noteq> ''on_pass_assertion'' \<Longrightarrow> hooks_of h (exec_phase c s p w) = hooks_of h w"
     apply (simp_all add: exec_phase_def Let_def)
    apply (simp_all add: invocations_def calls_of_def hooks_of_def)
  done

lemma add_error_res:
  "res (add_error t f w) = (res w)\<lparr>faults := faults (res w) @ [f]\<rparr>"
  by (simp add: add_error_def)

lemma add_error_frame [simp]:
  "clock (add_error t f w) = clock w"
  "invocations (add_error t f w) = invocations w"
  "m \<noteq> ''add_error'' \<Longrightarrow> calls_of m (add_error t f w) = calls_of m w"
  "h \<noteq> ''on_error'' \<Longrightarrow> hooks_of h (add_error t f w) = hooks_of h w"
  by (simp_all add: add_error_def called_calls_of notify_hooks_of)

lemma start_test_res:
  "res (start_test t w) =
     (res w)\<lparr>start_at := Some (clock w), n_tests := n_tests (res w) + 1\<rparr>"
  by (simp add: start_test_def)

lemma start_test_frame [simp]:
  "clock (start_test t w) = clock w"
  "invocations (start_test t w) = invocations w"
  "calls_of m (start_test t w) =
     calls_of m w @ (if m = ''start_test'' then [Call ''start_test'' [ATest t]] else [])"
  "h \<noteq> ''on_start_test'' \<Longrightarrow> hooks_of h (start_test t w) = hooks_of h w"
  by (simp_all add: start_test_def called_calls_of notify_hooks_of)

lemma add_success_frame [simp]:
  "res (add_success t w) = res w"
  "clock (add_success t w) = clock w"
  "invocations (add_success t w) = invocations w"
  "calls_of m (add_success t w) =
     calls_of m w @ (if m = ''add_success'' then [Call ''add_success'' [ATest t]] else [])"
  "hooks_of h (add_success t w) =
     hooks_of h w @ (if h = ''on_success'' then hooks_for ''success'' [ATest t] (res w) else [])"
  by (simp_all add: add_success_def called_calls_of notify_hooks_of)

text \<open>\<open>stop_test\<close> adds its own call to the log and nothing else.\<close>

lemma stop_test_log: "log (snd (stop_test t w)) = log w @ [Call ''stop_test'' [ATest t]]"
  by (simp add: stop_test_def called_def Let_def split: option.splits)

section \<open>The effect of TestCase.run\<close>

lemmas run_defs = run_def run_guarded_def run_setup_def run_body_def run_teardown_def
  call_interrupted_def stop_test_def tc_add_error_def tc_add_failure_def Let_def

lemmas outcome_defs = recorded_faults_def setup_faults_def body_faults_def
  teardown_faults_def error_of_def failure_of_def raises_cancel_def cancelled_def passed_def

lemma run_faults: "faults (res (snd (run c w))) = faults (res w) @ recorded_faults c"
  by (simp add: run_defs outcome_defs exec_phase_res add_error_res start_test_res
        split: option.splits)

lemma run_escapes: "fst (run c w) = (if cancelled c then Some TypeError else None)"
  by (simp add: run_defs outcome_defs exec_phase_res add_error_res start_test_res
        split: option.splits)

lemma run_interrupted: "interrupted (res (snd (run c w))) = interrupted (res w)"
  by (simp add: run_defs outcome_defs exec_phase_res add_error_res start_test_res
        split: option.splits)

lemma run_n_tests: "n_tests (res (snd (run c w))) = n_tests (res w) + 1"
  by (simp add: run_defs outcome_defs exec_phase_res add_error_res start_test_res
        split: option.splits)

lemma run_invocations:
  "invocations (snd (run c w)) =
     invocations w @ [Invoke c Setup]
       @ (if outcome (setup_hook c) = None then [Invoke c Body] else [])
       @ [Invoke c Teardown]"
  by (simp add: run_defs outcome_defs exec_phase_res add_error_res start_test_res
        split: option.splits)

lemma run_start_calls:
  "calls_of ''start_test'' (snd (run c w)) =
     calls_of ''start_test'' w @ [Call ''start_test'' [ATest c]]"
  by (simp add: run_defs outcome_defs exec_phase_res add_error_res start_test_res
        called_calls_of split: option.splits)

lemma run_stop_calls:
  "calls_of ''stop_test'' (snd (run c w)) =
     calls_of ''stop_test'' w @ [Call ''stop_test'' [ATest c]]"
  by (simp add: run_defs outcome_defs exec_phase_res add_error_res start_test_res
        called_calls_of split: option.splits)

lemma run_success_calls:
  "calls_of ''add_success'' (snd (run c w)) =
     calls_of ''add_success'' w @ (if passed c then [Call ''add_success'' [ATest c]] else [])"
  by (simp add: run_defs outcome_defs exec_phase_res add_error_res start_test_res
        called_calls_of split: option.splits)

lemma run_success_hooks:
  "hooks_of ''on_success'' (snd (run c w)) =
     hooks_of ''on_success'' w @
       (if passed c
        then hooks_for ''success'' [ATest c]
               (res (snd (run c w))\<lparr>stop_at := stop_at (res w), elapsed := elapsed (res w)\<rparr>)
        else [])"
  by (simp add: run_defs outcome_defs exec_phase_res add_error_res start_test_res
        called_calls_of split: option.splits)

section \<open>Properties of TestResult\<close>

lemma faults_partition:
  "length (filter is_Failure fs) + length (filter is_Error fs) = length fs"
proof (induction fs)
  case Nil
  show ?case by simp
next
  case (Cons f fs)
  then show ?case by (cases f) simp_all
qed

text \<open>
  C9: \<open>succeeded()\<close> is true exactly when the faults sequence is empty; it is false
  exactly when at least one Failure or Error is recorded, that is when \<open>n_failures\<close> and
  \<open>n_errors\<close> together count at least one fault.
\<close>

theorem succeeded_iff_no_faults:
  "succeeded r = (faults r = []) \<and> (\<not> succeeded r) = (1 \<le> n_failures r + n_errors r)"
proof -
  have "n_failures r + n_errors r = length (faults r)"
    unfolding n_failures_def n_errors_def by (rule faults_partition)
  then show ?thesis
    unfolding succeeded_def by (cases "faults r") simp_all
qed

section \<open>TestCase.run: teardown, faults and success\<close>

lemmas example_defs = returns_def raises_def test_passing_def test_other_def test_cancelled_def
  test_fail_then_teardown_error_def test_teardown_error_def test_error_def fresh_def
  TestResult_init_def add_listner_def

lemma filter_teardown:
  "filter (\<lambda>e. e = Invoke c Teardown) lg =
     filter (\<lambda>e. e = Invoke c Teardown) (filter is_Invoke lg)"
  by (induction lg) auto

text \<open>
  C7: every call of \<open>TestCase.run\<close> calls \<open>teardown\<close> exactly once, whatever
  \<open>setup\<close>, the test method and \<open>teardown\<close> do (return, raise a fault, raise the
  cancellation signal): the calls of user code it makes are \<open>setup\<close>, the test method
  when \<open>setup\<close> returned, and then \<open>teardown\<close>.
\<close>

theorem teardown_exactly_once:
  "teardown_calls c (snd (run c w)) = teardown_calls c w + 1
   \<and> invocations (snd (run c w)) =
       invocations w @ [Invoke c Setup]
         @ (if outcome (setup_hook c) = None then [Invoke c Body] else [])
         @ [Invoke c Teardown]"
proof -
  have "teardown_calls c (snd (run c w)) =
          length (filter (\<lambda>e. e = Invoke c Teardown) (invocations (snd (run c w))))"
    unfolding teardown_calls_def invocations_def by (subst filter_teardown) (rule refl)
  also have "\<dots> = length (filter (\<lambda>e. e = Invoke c Teardown) (invocations w)) + 1"
    by (simp add: run_invocations)
  also have "length (filter (\<lambda>e. e = Invoke c Teardown) (invocations w)) = teardown_calls c w"
    unfolding teardown_calls_def invocations_def by (subst filter_teardown) (rule refl)
  finally show ?thesis by (simp add: run_invocations)
qed

text \<open>
  C6: when \<open>setup\<close> and the test method return and \<open>teardown\<close> raises a fault other
  than the cancellation signal, the run appends exactly the Error of that fault, makes
  no call of \<open>add_success\<close>, calls no \<open>on_success\<close> hook, and returns normally.
\<close>

theorem teardown_error_overrides_success:
  assumes "outcome (setup_hook c) = None" and "outcome (test_method c) = None"
    and "outcome (teardown_hook c) = Some e" and "exc_type e \<noteq> KeyboardInterrupt"
  shows "faults (res (snd (run c w))) =
           faults (res w) @ [Error c (exc_type e) (detail e) (prepare_traceback (exc_tb e) False)]
         \<and> calls_of ''add_success'' (snd (run c w)) = calls_of ''add_success'' w
         \<and> hooks_of ''on_success'' (snd (run c w)) = hooks_of ''on_success'' w
         \<and> fst (run c w) = None"
  using assms
  by (simp add: run_faults run_success_calls run_success_hooks run_escapes outcome_defs)

text \<open>
  C6 at a test whose \<open>teardown\<close> raises an \<open>IOError\<close> after a passing body, on a fresh
  result.
\<close>

theorem teardown_error_overrides_success_witness:
  "outcome (setup_hook test_teardown_error) = None
   \<and> outcome (test_method test_teardown_error) = None
   \<and> exc_type \<lparr> exc_type = OtherClass ''IOError'', detail = ''boom'', exc_tb = [] \<rparr>
       \<noteq> KeyboardInterrupt
   \<and> faults (res (snd (run test_teardown_error fresh))) =
       [Error test_teardown_error (OtherClass ''IOError'') ''boom'' []]
   \<and> calls_of ''add_success'' (snd (run test_teardown_error fresh)) = []
   \<and> hooks_of ''on_success'' (snd (run test_teardown_error fresh)) = []
   \<and> fst (run test_teardown_error fresh) = None"
  using teardown_error_overrides_success
    [of test_teardown_error
        "\<lparr> exc_type = OtherClass ''IOError'', detail = ''boom'', exc_tb = [] \<rparr>" fresh]
  by (simp add: example_defs calls_of_def hooks_of_def prepare_traceback_def extract_tb_def)

text \<open>
  C8 on the code: a test whose method raises the cancellation signal, on a fresh
  result. The signal is caught, but the handler's \<open>result.interrupted()\<close> raises
  \<open>TypeError\<close>; \<open>teardown\<close> and \<open>stop_test\<close> still run, and the \<open>TypeError\<close> leaves
  \<open>TestCase.run\<close>. No fault is recorded and the interrupted flag is not set.
\<close>

theorem cancellation_escapes_run:
  "fst (run test_cancelled fresh) = Some TypeError
   \<and> faults (res (snd (run test_cancelled fresh))) = []
   \<and> interrupted (res (snd (run test_cancelled fresh))) = False
   \<and> invocations (snd (run test_cancelled fresh)) =
       [Invoke test_cancelled Setup, Invoke test_cancelled Body, Invoke test_cancelled Teardown]
   \<and> calls_of ''stop_test'' (snd (run test_cancelled fresh)) =
       [Call ''stop_test'' [ATest test_cancelled]]"
  apply (simp add: run_escapes run_faults run_interrupted run_invocations run_stop_calls)
  apply (simp add: outcome_defs example_defs invocations_def calls_of_def)
  done

text \<open>
  Apart from the cancellation signal the propagation policy holds: an exception leaves
  \<open>TestCase.run\<close> only when a phase that is run raises the cancellation signal, and
  every other fault of a phase is appended as its record, whatever the other phases do.
\<close>

lemma run_propagation:
  "fst (run c w) = (if cancelled c then Some TypeError else None)
   \<and> faults (res (snd (run c w))) = faults (res w) @ recorded_faults c"
  by (simp add: run_escapes run_faults)






section \<open>TestSuite.run and interruption\<close>

lemma suite_cancel:
  "suite_run [Case test_cancelled, Case test_other] fresh = run test_cancelled fresh
   \<and> fst (run test_cancelled fresh) = Some TypeError"
proof -
  have c: "cancelled test_cancelled"
    by (simp add: cancelled_def raises_cancel_def example_defs)
  obtain r w1 where rw: "run test_cancelled fresh = (r, w1)"
    by (cases "run test_cancelled fresh")
  with c have "r = Some TypeError"
    using run_escapes [of test_cancelled fresh] by simp
  with rw show ?thesis by simp
qed

text \<open>
  C1 on the code: a suite of two tests on a fresh result, the first raising the
  cancellation signal in its body. \<open>setup\<close>, the body and \<open>teardown\<close> of the first test
  run, \<open>start_test\<close> and \<open>stop_test\<close> are called for it alone, but the suite's run is left
  by a \<open>TypeError\<close> and the interrupted flag is still false.
\<close>

theorem interrupt_in_body_raises_TypeError:
  "fst (suite_run [Case test_cancelled, Case test_other] fresh) = Some TypeError
   \<and> interrupted (res (snd (suite_run [Case test_cancelled, Case test_other] fresh))) = False
   \<and> need_interrupt (res (snd (suite_run [Case test_cancelled, Case test_other] fresh))) = False
   \<and> invocations (snd (suite_run [Case test_cancelled, Case test_other] fresh)) =
       [Invoke test_cancelled Setup, Invoke test_cancelled Body, Invoke test_cancelled Teardown]
   \<and> calls_of ''start_test'' (snd (suite_run [Case test_cancelled, Case test_other] fresh)) =
       [Call ''start_test'' [ATest test_cancelled]]
   \<and> calls_of ''stop_test'' (snd (suite_run [Case test_cancelled, Case test_other] fresh)) =
       [Call ''stop_test'' [ATest test_cancelled]]"
  apply (simp only: suite_cancel [THEN conjunct1])
  apply (simp add: suite_cancel [THEN conjunct2] run_interrupted run_invocations
      run_start_calls run_stop_calls need_interrupt_def)
  apply (simp add: example_defs invocations_def calls_of_def)
  done

lemma run_need_interrupt:
  "need_interrupt (res (snd (run c w))) = need_interrupt (res w)"
  by (simp add: need_interrupt_def run_interrupted)

lemma suite_need_interrupt:
  "need_interrupt (res (snd (test_run t w))) = need_interrupt (res w)"
  "need_interrupt (res (snd (suite_run ts w))) = need_interrupt (res w)"
proof (induction t w and ts w rule: test_run_suite_run.induct)
  case (1 c w)
  show ?case by (simp add: run_need_interrupt)
next
  case (2 ts w)
  then show ?case by simp
next
  case (3 w)
  show ?case by simp
next
  case (4 t ts w)
  show ?case
  proof (cases "test_run t w")
    case (Pair r w1)
    with 4 show ?thesis by (cases r) (auto split: if_splits)
  qed
qed

text \<open>
  C10: when \<open>need_interrupt()\<close> is already true as \<open>TestSuite.run\<close> begins on a
  non-empty suite, the first child is run all the same and the loop stops after it: the
  suite's run is the run of its first child. When that child is a test case, its
  \<open>start_test\<close> is called and counted.
\<close>

theorem first_child_runs_when_interrupted:
  assumes "need_interrupt (res w)"
  shows "suite_run (t # ts) w = test_run t w
         \<and> calls_of ''start_test'' (snd (suite_run (Case c # ts) w)) =
             calls_of ''start_test'' w @ [Call ''start_test'' [ATest c]]
         \<and> n_tests (res (snd (suite_run (Case c # ts) w))) = n_tests (res w) + 1"
proof -
  have eq: "suite_run (t # ts) w = test_run t w" for t
  proof (cases "test_run t w")
    case (Pair r w1)
    then have "need_interrupt (res w1)"
      using suite_need_interrupt(1) [of t w] assms by simp
    with Pair show ?thesis by (cases r) simp_all
  qed
  show ?thesis
    apply (simp only: eq)
    apply (simp add: run_start_calls run_n_tests)
    done
qed

text \<open>C10 at a suite of two passing tests, on a result that \<open>interrupt()\<close> has marked.\<close>

theorem first_child_runs_when_interrupted_witness:
  "need_interrupt (res (interrupt fresh))
   \<and> suite_run [Case test_passing, Case test_other] (interrupt fresh) =
       test_run (Case test_passing) (interrupt fresh)
   \<and> calls_of ''start_test''
         (snd (suite_run [Case test_passing, Case test_other] (interrupt fresh))) =
       [Call ''start_test'' [ATest test_passing]]
   \<and> n_tests (res (snd (suite_run [Case test_passing, Case test_other] (interrupt fresh)))) = 1"
proof -
  have h: "need_interrupt (res (interrupt fresh))"
    by (simp add: need_interrupt_def interrupt_def)
  have base: "calls_of ''start_test'' (interrupt fresh) = []"
    "n_tests (res (interrupt fresh)) = 0"
    by (simp_all add: interrupt_def called_def fresh_def TestResult_init_def calls_of_def)
  note th = first_child_runs_when_interrupted
    [OF h, of "Case test_passing" "[Case test_other]" test_passing,
     unfolded base append_Nil add_0]
  show ?thesis
    using h th by blast
qed

section \<open>Listener dispatch\<close>

lemma notify_notifications:
  "notifications (notify nm args w) = notifications w @ hooks_for nm args (res w)"
  by (simp add: notifications_def notify_log filter_hooks_for)

text \<open>
  C3 on the code: on a result whose one listener has every hook, \<open>start_test\<close> calls
  \<open>on_start_test\<close>, but \<open>stop_test\<close> after it returns normally and calls no hook:
  \<open>on_stop_test\<close> is never called.
\<close>

theorem stop_test_notifies_nobody:
  "hasattr full_listener ''on_stop_test''
   \<and> listners (res listened) = [full_listener]
   \<and> fst (stop_test test_passing (start_test test_passing listened)) = None
   \<and> hooks_of ''on_stop_test'' (snd (stop_test test_passing (start_test test_passing listened)))
       = []
   \<and> notifications (snd (stop_test test_passing (start_test test_passing listened))) =
       notifications (start_test test_passing listened)
   \<and> length (hooks_of ''on_start_test'' (start_test test_passing listened)) = 1"
  apply (simp add: hooks_of_def notifications_def stop_test_log)
  apply (simp add: stop_test_def start_test_def notify_def called_def hasattr_def listened_def
      full_listener_def example_defs Let_def)
  done

text \<open>
  C5, as stated, fails: for a listener that has \<open>on_error\<close> only, \<open>add_error\<close> calls the
  hook and \<open>add_failure\<close> calls nothing.
\<close>

theorem add_error_add_failure_counterexample:
  "notifications (add_error test_error some_fault error_listened) \<noteq>
     notifications (add_failure test_error some_fault error_listened)
   \<and> notifications (add_failure test_error some_fault error_listened) = []"
  apply (simp add: add_error_def add_failure_def notify_notifications)
  apply (simp add: hooks_for_def hasattr_def notifications_def called_def error_listened_def
      error_listener_def example_defs)
  done

text \<open>
  C5, amended: \<open>add_error\<close> and \<open>add_failure\<close> leave the same \<open>TestResult\<close>, with the
  fault appended to the faults; \<open>add_error\<close> dispatches the event \<open>error\<close> (hook
  \<open>on_error\<close>) and \<open>add_failure\<close> the event \<open>failure\<close> (hook \<open>on_failure\<close>), each
  with the aggregator and the fault.
\<close>

theorem add_error_add_failure_same_storage:
  "res (add_error t f w) = res (add_failure t f w)
   \<and> faults (res (add_error t f w)) = faults (res w) @ [f]
   \<and> clock (add_error t f w) = clock (add_failure t f w)
   \<and> notifications (add_error t f w) =
       notifications w @ hooks_for ''error'' [AFault f] (res (add_error t f w))
   \<and> notifications (add_failure t f w) =
       notifications w @ hooks_for ''failure'' [AFault f] (res (add_failure t f w))"
  apply (simp add: add_error_def add_failure_def notify_notifications)
  apply (simp add: notifications_def called_def)
  done

section \<open>TestLoader.load_modules\<close>









end
